theory Spec2Isabelle
  imports
    Main
    "HOL-Library.AList"
    "HOL-Library.Char_ord"
    "HOL-Library.List_Lexorder"
    "HOL-Library.Product_Lexorder"
begin

section \<open>Documents of the store\<close>

text \<open>
  The bot of \<^verbatim>\<open>main.py\<close> keeps three collections of schemaless documents:
  \<^verbatim>\<open>db.waifus\<close> (the catalog), \<^verbatim>\<open>db.users\<close> and \<^verbatim>\<open>db.pending\<close>.
  A document is a record here. A key that the handlers read with \<^verbatim>\<open>doc["k"]\<close> is a
  plain field; a key that they read with \<^verbatim>\<open>doc.get("k", default)\<close> or test with
  \<^verbatim>\<open>"k" in doc\<close> is an \<open>option\<close> field, \<open>None\<close> standing for the absent key
  (for \<^verbatim>\<open>img\<close>, also for the value \<^verbatim>\<open>None\<close>, which \<^verbatim>\<open>get\<close> returns in both cases).
  Python strings are \<open>string\<close>s holding the UTF-8 bytes, Python integers are \<open>int\<close>.
\<close>

record waifu =
  w_waifu_id :: string
  w_name :: string
  w_img :: "string option"

record pending_doc =
  p_user_id :: int
  p_waifu_id :: string
  p_name :: string
  p_img :: "string option"
  p_rarity :: string
  p_ts :: "int option"

record entry =
  e_name :: string
  e_img :: "string option"
  e_rarity :: "string option"
  e_count :: "int option"

text \<open>
  \<^verbatim>\<open>waifus_map\<close> is a Python dict: an association list in insertion order, which is the
  order \<^verbatim>\<open>items()\<close> walks and the order a stable sort keeps among equal keys.
\<close>

type_synonym waifus_map = "(string \<times> entry) list"

record user_doc =
  u_user_id :: int
  u_last_catch :: "int option"
  u_waifus_map :: "waifus_map option"

record db =
  waifus :: "waifu list"
  users :: "user_doc list"
  pending :: "pending_doc list"

datatype error = KeyError string

datatype reply =
    Wait int
  | NoWaifusLoaded
  | AppearedPhoto string string string
  | Appeared string string
  | NothingToClaim
  | Claimed string string int
  | CollectionEmpty
  | Collection "string list"
  | NoData
  | Leaderboard "string list"

section \<open>The store's operations\<close>

text \<open>
  A collection is the list of its documents in natural order. \<^verbatim>\<open>find_one\<close> returns the
  first document matching the query, \<^verbatim>\<open>update_one\<close> rewrites the first match,
  with \<^verbatim>\<open>upsert=True\<close> it inserts a new document when there is none, and
  \<^verbatim>\<open>delete_one\<close> removes the first match.
\<close>

definition find_one :: "('a \<Rightarrow> bool) \<Rightarrow> 'a list \<Rightarrow> 'a option" where
  "find_one q docs = List.find q docs"

fun update_one :: "('a \<Rightarrow> bool) \<Rightarrow> ('a \<Rightarrow> 'a) \<Rightarrow> 'a list \<Rightarrow> 'a list" where
  "update_one q f [] = []"
| "update_one q f (d # ds) = (if q d then f d # ds else d # update_one q f ds)"

fun update_one_upsert :: "('a \<Rightarrow> bool) \<Rightarrow> ('a \<Rightarrow> 'a) \<Rightarrow> 'a \<Rightarrow> 'a list \<Rightarrow> 'a list" where
  "update_one_upsert q f new [] = [new]"
| "update_one_upsert q f new (d # ds) =
     (if q d then f d # ds else d # update_one_upsert q f new ds)"

fun delete_one :: "('a \<Rightarrow> bool) \<Rightarrow> 'a list \<Rightarrow> 'a list" where
  "delete_one q [] = []"
| "delete_one q (d # ds) = (if q d then ds else d # delete_one q ds)"

section \<open>Settings and the rarity selector\<close>

definition RARITY_WEIGHTS :: "(string \<times> nat) list" where
  "RARITY_WEIGHTS = [(''Legendary'', 2), (''Epic'', 8), (''Rare'', 20), (''Common'', 70)]"

fun build_rarity_choice_loop :: "(string \<times> nat) list \<Rightarrow> string list \<Rightarrow> string list" where
  "build_rarity_choice_loop [] items = items"
| "build_rarity_choice_loop ((r, w) # rest) items =
     build_rarity_choice_loop rest (items @ replicate w r)"

definition build_rarity_choice :: "string list" where
  "build_rarity_choice = build_rarity_choice_loop RARITY_WEIGHTS []"

definition RARITY_CHOICES :: "string list" where
  "RARITY_CHOICES = build_rarity_choice"

text \<open>
  \<^verbatim>\<open>random.choice(seq)\<close> returns \<^verbatim>\<open>seq[i]\<close> for an index \<open>i\<close> drawn uniformly below
  \<^verbatim>\<open>len(seq)\<close>; the draw is the argument of the model.
\<close>

definition pick_rarity :: "nat \<Rightarrow> string" where
  "pick_rarity i = RARITY_CHOICES ! i"

text \<open>
  \<^verbatim>\<open>$sample\<close> of size 1 yields a list of at most one catalog document; the draw \<open>i\<close> is
  the position of the sampled document.
\<close>

definition choose_random_waifu_async :: "nat \<Rightarrow> db \<Rightarrow> waifu option" where
  "choose_random_waifu_async i d =
     (let count = length (waifus d) in
      if count = 0 then None
      else (let docs = take 1 (drop i (waifus d)) in
            case docs of [] \<Rightarrow> None | w # _ \<Rightarrow> Some w))"

section \<open>The catch and claim handlers\<close>

text \<open>
  \<^verbatim>\<open>userdoc.get("last_catch", 0) if userdoc else 0\<close>, for the user document that
  \<^verbatim>\<open>find_one\<close> returns.
\<close>

definition get_last_catch :: "int \<Rightarrow> user_doc list \<Rightarrow> int" where
  "get_last_catch user_id us =
     (case find_one (\<lambda>u. u_user_id u = user_id) us of
        None \<Rightarrow> 0
      | Some u \<Rightarrow> (case u_last_catch u of None \<Rightarrow> 0 | Some t \<Rightarrow> t))"

text \<open>
  \<^verbatim>\<open>cmd_catch\<close> at time \<open>now\<close>, with the two random draws and the outcome of the photo
  upload as arguments. \<open>last_ts\<close> is read from the pending document as in the source and,
  as in the source, used nowhere.
\<close>

definition cmd_catch ::
  "int \<Rightarrow> int \<Rightarrow> int \<Rightarrow> nat \<Rightarrow> nat \<Rightarrow> bool \<Rightarrow> db \<Rightarrow> reply \<times> db" where
  "cmd_catch COOLDOWN_SECONDS user_id now iw ir photo_ok d =
     (let pending0 = find_one (\<lambda>p. p_user_id p = user_id) (pending d);
          last_ts = (case pending0 of
                       None \<Rightarrow> 0
                     | Some p \<Rightarrow> (case p_ts p of None \<Rightarrow> 0 | Some t \<Rightarrow> t));
          last_catch = get_last_catch user_id (users d)
      in if now - last_catch < COOLDOWN_SECONDS
         then (Wait (COOLDOWN_SECONDS - (now - last_catch)), d)
         else (case choose_random_waifu_async iw d of
                 None \<Rightarrow> (NoWaifusLoaded, d)
               | Some w \<Rightarrow>
                   (let rarity = pick_rarity ir;
                        pending' = update_one_upsert (\<lambda>p. p_user_id p = user_id)
                          (\<lambda>p. p\<lparr>p_user_id := user_id, p_waifu_id := w_waifu_id w,
                                 p_name := w_name w, p_img := w_img w,
                                 p_rarity := rarity, p_ts := Some now\<rparr>)
                          \<lparr>p_user_id = user_id, p_waifu_id = w_waifu_id w,
                           p_name = w_name w, p_img = w_img w,
                           p_rarity = rarity, p_ts = Some now\<rparr>
                          (pending d);
                        users' = update_one_upsert (\<lambda>u. u_user_id u = user_id)
                          (\<lambda>u. u\<lparr>u_last_catch := Some now\<rparr>)
                          \<lparr>u_user_id = user_id, u_last_catch = Some now,
                           u_waifus_map = None\<rparr>
                          (users d);
                        d' = d\<lparr>users := users', pending := pending'\<rparr>
                    in (case w_img w of
                          None \<Rightarrow> (Appeared (w_name w) rarity, d')
                        | Some img \<Rightarrow>
                            if img \<noteq> [] \<and> photo_ok
                            then (AppearedPhoto img (w_name w) rarity, d')
                            else (Appeared (w_name w) rarity, d')))))"

text \<open>
  The dict update of \<^verbatim>\<open>cmd_claim\<close>: an owned \<open>wid\<close> has its count replaced
  by \<^verbatim>\<open>get("count", 1) + 1\<close>, a new \<open>wid\<close> is added at the end with count 1.
\<close>

definition claim_entry :: "pending_doc \<Rightarrow> waifus_map \<Rightarrow> waifus_map" where
  "claim_entry pend waifus_map =
     (let wid = p_waifu_id pend in
      case map_of waifus_map wid of
        Some e \<Rightarrow>
          AList.update wid
            (e\<lparr>e_count := Some ((case e_count e of None \<Rightarrow> 1 | Some c \<Rightarrow> c) + 1)\<rparr>)
            waifus_map
      | None \<Rightarrow>
          AList.update wid
            \<lparr>e_name = p_name pend, e_img = p_img pend,
             e_rarity = Some (p_rarity pend), e_count = Some 1\<rparr>
            waifus_map)"

text \<open>
  \<^verbatim>\<open>user_doc.get("waifus_map", {}) if user_doc else {}\<close>, as \<^verbatim>\<open>cmd_claim\<close>,
  \<^verbatim>\<open>cmd_inventory\<close> and \<^verbatim>\<open>cmd_profile\<close> compute it.
\<close>

definition get_waifus_map :: "int \<Rightarrow> user_doc list \<Rightarrow> waifus_map" where
  "get_waifus_map user_id us =
     (case find_one (\<lambda>u. u_user_id u = user_id) us of
        None \<Rightarrow> []
      | Some u \<Rightarrow> (case u_waifus_map u of None \<Rightarrow> [] | Some m \<Rightarrow> m))"

text \<open>
  \<^verbatim>\<open>cmd_claim\<close>. The first \<^verbatim>\<open>update_one\<close> (an empty \<^verbatim>\<open>$inc\<close> and a
  \<^verbatim>\<open>$setOnInsert\<close>, with upsert) creates the user document when there is none and changes
  nothing otherwise; the store is one that accepts an update operator with an empty
  operand, as MongoDB does from version 5.0 on. The reply is formatted last, after both collections are written; it
  reads \<^verbatim>\<open>['rarity']\<close> of the stored entry, which raises when the key is absent.
\<close>

definition cmd_claim :: "int \<Rightarrow> db \<Rightarrow> (error + reply) \<times> db" where
  "cmd_claim user_id d =
     (case find_one (\<lambda>p. p_user_id p = user_id) (pending d) of
        None \<Rightarrow> (Inr NothingToClaim, d)
      | Some pend \<Rightarrow>
          (let users1 = update_one_upsert (\<lambda>u. u_user_id u = user_id) (\<lambda>u. u)
                          \<lparr>u_user_id = user_id, u_last_catch = None, u_waifus_map = None\<rparr>
                          (users d);
               waifus_map = claim_entry pend (get_waifus_map user_id users1);
               wid = p_waifu_id pend;
               users2 = update_one (\<lambda>u. u_user_id u = user_id)
                          (\<lambda>u. u\<lparr>u_waifus_map := Some waifus_map\<rparr>) users1;
               pending' = delete_one (\<lambda>p. p_user_id p = user_id) (pending d);
               d' = d\<lparr>users := users2, pending := pending'\<rparr>
           in (case map_of waifus_map wid of
                 None \<Rightarrow> (Inl (KeyError wid), d')
               | Some e \<Rightarrow>
                   (case e_rarity e of
                      None \<Rightarrow> (Inl (KeyError ''rarity''), d')
                    | Some r \<Rightarrow>
                        (case e_count e of
                           None \<Rightarrow> (Inl (KeyError ''count''), d')
                         | Some c \<Rightarrow> (Inr (Claimed (e_name e) r c), d'))))))"

section \<open>The read-only handlers\<close>

text \<open>Python's \<^verbatim>\<open>str\<close> of an integer: decimal digits, with a minus sign when negative.\<close>

fun digits :: "nat \<Rightarrow> string" where
  "digits n =
     (if n < 10 then [char_of (48 + n)]
      else digits (n div 10) @ [char_of (48 + n mod 10)])"

declare digits.simps [simp del]

definition str_int :: "int \<Rightarrow> string" where
  "str_int i = (if i < 0 then CHR ''-'' # digits (nat (- i)) else digits (nat i))"

text \<open>The em dash of the rendered lines (U+2014), as its three UTF-8 bytes.\<close>

definition em_dash :: string where
  "em_dash = [CHR 0xE2, CHR 0x80, CHR 0x94]"

text \<open>\<^verbatim>\<open>info.get("count", 0)\<close> and \<^verbatim>\<open>info.get("rarity", "")\<close>.\<close>

definition get_count :: "entry \<Rightarrow> int" where
  "get_count info = (case e_count info of None \<Rightarrow> 0 | Some c \<Rightarrow> c)"

definition get_rarity :: "entry \<Rightarrow> string" where
  "get_rarity info = (case e_rarity info of None \<Rightarrow> [] | Some r \<Rightarrow> r)"

text \<open>
  The sort key of \<^verbatim>\<open>cmd_inventory\<close>:
  \<^verbatim>\<open>(-x[1].get("count",0), x[1].get("rarity",""))\<close>. Pairs compare lexicographically and
  strings compare lexicographically by character code, as Python tuples and strings do.
\<close>

definition inventory_key :: "string \<times> entry \<Rightarrow> int \<times> string" where
  "inventory_key x = (- get_count (snd x), get_rarity (snd x))"

text \<open>
  One line of the inventory. The f-string reads \<^verbatim>\<open>info['name']\<close>, \<^verbatim>\<open>info['rarity']\<close>
  and \<^verbatim>\<open>info['count']\<close> in this order and raises at the first absent key.
\<close>

definition inventory_line :: "nat \<Rightarrow> entry \<Rightarrow> error + string" where
  "inventory_line i info =
     (case e_rarity info of
        None \<Rightarrow> Inl (KeyError ''rarity'')
      | Some r \<Rightarrow>
          (case e_count info of
             None \<Rightarrow> Inl (KeyError ''count'')
           | Some c \<Rightarrow>
               Inr (str_int (int i) @ ''. '' @ e_name info @ '' '' @ em_dash @ '' '' @ r
                    @ '' x'' @ str_int c)))"

text \<open>
  The loop over \<^verbatim>\<open>enumerate(sorted(...), 1)\<close>: a line is appended, then the loop
  breaks once \<open>i \<ge> 20\<close>.
\<close>

fun inventory_lines :: "nat \<Rightarrow> (string \<times> entry) list \<Rightarrow> error + string list" where
  "inventory_lines i [] = Inr []"
| "inventory_lines i ((wid, info) # rest) =
     (case inventory_line i info of
        Inl e \<Rightarrow> Inl e
      | Inr l \<Rightarrow>
          if i \<ge> 20 then Inr [l]
          else (case inventory_lines (i + 1) rest of
                  Inl e \<Rightarrow> Inl e
                | Inr ls \<Rightarrow> Inr (l # ls)))"

definition cmd_inventory :: "int \<Rightarrow> db \<Rightarrow> error + reply" where
  "cmd_inventory user_id d =
     (let waifus_map = get_waifus_map user_id (users d) in
      if waifus_map = [] then Inr CollectionEmpty
      else (case inventory_lines 1 (sort_key inventory_key waifus_map) of
              Inl e \<Rightarrow> Inl e
            | Inr lines \<Rightarrow> Inr (Collection lines)))"

text \<open>
  \<^verbatim>\<open>sum(v.get("count",0) for v in wm.values())\<close> over
  \<^verbatim>\<open>wm = d.get("waifus_map", {})\<close>.
\<close>

definition total_count :: "user_doc \<Rightarrow> int" where
  "total_count d =
     (let wm = (case u_waifus_map d of None \<Rightarrow> [] | Some m \<Rightarrow> m) in
      sum_list (map get_count (map snd wm)))"

fun leaderboard_scores :: "user_doc list \<Rightarrow> (int \<times> int) list" where
  "leaderboard_scores [] = []"
| "leaderboard_scores (d # docs) =
     (let total = total_count d in
      if total > 0 then (u_user_id d, total) # leaderboard_scores docs
      else leaderboard_scores docs)"

text \<open>
  \<^verbatim>\<open>to_list(length=100)\<close> reads at most 100 documents;
  \<^verbatim>\<open>sorted(scores, key=lambda x: -x[1])[:10]\<close> is a stable sort and a slice.
\<close>

definition leaderboard_top :: "user_doc list \<Rightarrow> (int \<times> int) list" where
  "leaderboard_top us =
     (let docs = take 100 us;
          scores = leaderboard_scores docs
      in take 10 (sort_key (\<lambda>x. - snd x) scores))"

text \<open>
  The display name is resolved by the transport; \<open>get_chat uid = None\<close> stands for the
  exception that makes the handler fall back to \<^verbatim>\<open>str(uid)\<close>.
\<close>

fun leaderboard_lines :: "(int \<Rightarrow> string option) \<Rightarrow> nat \<Rightarrow> (int \<times> int) list \<Rightarrow> string list" where
  "leaderboard_lines get_chat rank [] = []"
| "leaderboard_lines get_chat rank ((uid, score) # rest) =
     (let name = (case get_chat uid of Some full_name \<Rightarrow> full_name | None \<Rightarrow> str_int uid)
      in (str_int (int rank) @ ''. '' @ name @ '' '' @ em_dash @ '' '' @ str_int score)
         # leaderboard_lines get_chat (rank + 1) rest)"

definition cmd_leaderboard :: "(int \<Rightarrow> string option) \<Rightarrow> db \<Rightarrow> reply" where
  "cmd_leaderboard get_chat d =
     (let top = leaderboard_top (users d) in
      if top = [] then NoData
      else Leaderboard (leaderboard_lines get_chat 1 top))"

section \<open>The data-model invariant\<close>

text \<open>At most one pending document per user.\<close>

definition one_pending_per_user :: "db \<Rightarrow> bool" where
  "one_pending_per_user d = distinct (map p_user_id (pending d))"

section \<open>Sample states\<close>

text \<open>
  A small catalog and a store with four users, on which the theorems below are run:
  user 7 owns four collectibles and has rolled \<open>w1\<close> again, user 8 has a bare user
  document, user 9 owns an entry that carries no count and has rolled it again, and
  user 10 owns nine copies of one collectible.
\<close>

definition catalog_sample :: "waifu list" where
  "catalog_sample =
     [\<lparr>w_waifu_id = ''w1'', w_name = ''Aria'', w_img = Some ''aria.png''\<rparr>,
      \<lparr>w_waifu_id = ''w2'', w_name = ''Mika'', w_img = None\<rparr>]"

definition db_sample :: db where
  "db_sample =
     \<lparr>waifus = catalog_sample,
      users =
        [\<lparr>u_user_id = 7, u_last_catch = Some 100,
          u_waifus_map = Some
            [(''w1'', \<lparr>e_name = ''Aria'', e_img = None,
                       e_rarity = Some ''Common'', e_count = Some 1\<rparr>),
             (''w2'', \<lparr>e_name = ''Mika'', e_img = None,
                       e_rarity = Some ''Rare'', e_count = Some 2\<rparr>),
             (''w4'', \<lparr>e_name = ''Yuna'', e_img = None,
                       e_rarity = Some ''Legendary'', e_count = Some 2\<rparr>),
             (''w5'', \<lparr>e_name = ''Sora'', e_img = None,
                       e_rarity = Some ''Epic'', e_count = Some 2\<rparr>)]\<rparr>,
         \<lparr>u_user_id = 8, u_last_catch = None, u_waifus_map = None\<rparr>,
         \<lparr>u_user_id = 9, u_last_catch = Some 100,
          u_waifus_map = Some
            [(''w3'', \<lparr>e_name = ''Rin'', e_img = None,
                       e_rarity = Some ''Rare'', e_count = None\<rparr>)]\<rparr>,
         \<lparr>u_user_id = 10, u_last_catch = Some 50,
          u_waifus_map = Some
            [(''w2'', \<lparr>e_name = ''Mika'', e_img = None,
                       e_rarity = Some ''Common'', e_count = Some 9\<rparr>)]\<rparr>],
      pending =
        [\<lparr>p_user_id = 7, p_waifu_id = ''w1'', p_name = ''Aria'', p_img = Some ''aria.png'',
          p_rarity = ''Legendary'', p_ts = Some 100\<rparr>,
         \<lparr>p_user_id = 9, p_waifu_id = ''w3'', p_name = ''Rin'', p_img = None,
          p_rarity = ''Epic'', p_ts = Some 100\<rparr>]\<rparr>"

text \<open>A store whose first hundred user documents own nothing; the collector comes last.\<close>

definition db_crowded :: db where
  "db_crowded =
     \<lparr>waifus = catalog_sample,
      users =
        replicate 100 \<lparr>u_user_id = 8, u_last_catch = None, u_waifus_map = None\<rparr> @
        [\<lparr>u_user_id = 10, u_last_catch = Some 50,
          u_waifus_map = Some
            [(''w2'', \<lparr>e_name = ''Mika'', e_img = None,
                       e_rarity = Some ''Common'', e_count = Some 9\<rparr>)]\<rparr>],
      pending = []\<rparr>"

section \<open>Facts about the store's operations\<close>

lemma find_one_update_one_upsert:
  "q new \<Longrightarrow> (\<And>x. q x \<Longrightarrow> q (f x)) \<Longrightarrow>
   find_one q (update_one_upsert q f new ds) =
     Some (case find_one q ds of None \<Rightarrow> new | Some x \<Rightarrow> f x)"
  by (induction ds) (auto simp: find_one_def)

lemma find_one_update_one:
  "(\<And>x. q x \<Longrightarrow> q (f x)) \<Longrightarrow>
   find_one q (update_one q f ds) = map_option f (find_one q ds)"
  by (induction ds) (auto simp: find_one_def)

lemma distinct_keys_Cons:
  "distinct (map k (d # ds)) \<Longrightarrow> \<forall>x\<in>set ds. k x \<noteq> k d"
  by (auto simp: image_iff)

lemma set_delete_one: "set (delete_one q ds) \<subseteq> set ds"
  by (induction ds) auto

lemma distinct_delete_one:
  "distinct (map k ds) \<Longrightarrow> distinct (map k (delete_one q ds))"
proof (induction ds)
  case Nil
  then show ?case by simp
next
  case (Cons d ds)
  have "k d \<notin> k ` set (delete_one q ds)"
    using Cons.prems set_delete_one [of q ds] by auto
  with Cons show ?case by simp
qed

lemma find_one_delete_one:
  "distinct (map k ds) \<Longrightarrow>
   find_one (\<lambda>p. k p = u) (delete_one (\<lambda>p. k p = u) ds) = None"
proof (induction ds)
  case Nil
  then show ?case by (simp add: find_one_def)
next
  case (Cons d ds)
  show ?case
  proof (cases "k d = u")
    case True
    from Cons.prems(1) have "\<forall>x\<in>set ds. k x \<noteq> k d" by (rule distinct_keys_Cons)
    with True have "\<forall>x\<in>set ds. k x \<noteq> u" by simp
    with True show ?thesis by (simp add: find_one_def find_None_iff)
  next
    case False
    with Cons show ?thesis by (simp add: find_one_def)
  qed
qed

lemma keys_update_one_upsert:
  "k new = u \<Longrightarrow> (\<And>x. k x = u \<Longrightarrow> k (f x) = u) \<Longrightarrow>
   map k (update_one_upsert (\<lambda>p. k p = u) f new ds) =
     (if u \<in> set (map k ds) then map k ds else map k ds @ [u])"
  by (induction ds) auto

lemma distinct_update_one_upsert:
  "distinct (map k ds) \<Longrightarrow> k new = u \<Longrightarrow> (\<And>x. k x = u \<Longrightarrow> k (f x) = u) \<Longrightarrow>
   distinct (map k (update_one_upsert (\<lambda>p. k p = u) f new ds))"
  by (simp add: keys_update_one_upsert)

lemma filter_update_one_upsert:
  "distinct (map k ds) \<Longrightarrow> k new = u \<Longrightarrow> (\<And>x. k x = u \<Longrightarrow> f x = new) \<Longrightarrow>
   filter (\<lambda>p. k p = u) (update_one_upsert (\<lambda>p. k p = u) f new ds) = [new]"
proof (induction ds)
  case Nil
  then show ?case by simp
next
  case (Cons d ds)
  show ?case
  proof (cases "k d = u")
    case True
    from Cons.prems(1) have "\<forall>x\<in>set ds. k x \<noteq> k d" by (rule distinct_keys_Cons)
    with True have "\<forall>x\<in>set ds. k x \<noteq> u" by simp
    then have "filter (\<lambda>p. k p = u) ds = []" by (simp add: filter_empty_conv)
    with True Cons.prems show ?thesis by simp
  next
    case False
    with Cons show ?thesis by simp
  qed
qed

section \<open>Facts about the handlers\<close>

lemma get_waifus_map_claim_write:
  "get_waifus_map uid
     (update_one (\<lambda>u. u_user_id u = uid) (\<lambda>u. u\<lparr>u_waifus_map := Some m\<rparr>)
        (update_one_upsert (\<lambda>u. u_user_id u = uid) (\<lambda>u. u)
           \<lparr>u_user_id = uid, u_last_catch = None, u_waifus_map = None\<rparr> us)) = m"
  by (simp add: get_waifus_map_def find_one_update_one find_one_update_one_upsert
      split: option.splits)

lemma get_waifus_map_claim_read:
  "get_waifus_map uid
     (update_one_upsert (\<lambda>u. u_user_id u = uid) (\<lambda>u. u)
        \<lparr>u_user_id = uid, u_last_catch = None, u_waifus_map = None\<rparr> us) =
   get_waifus_map uid us"
  by (simp add: get_waifus_map_def find_one_update_one_upsert split: option.splits)

lemma claim_waifus_map:
  "find_one (\<lambda>p. p_user_id p = uid) (pending d) = Some pend \<Longrightarrow>
   get_waifus_map uid (users (snd (cmd_claim uid d))) =
     claim_entry pend (get_waifus_map uid (users d))"
  by (simp add: cmd_claim_def Let_def get_waifus_map_claim_write get_waifus_map_claim_read
      split: option.splits)

lemma claim_pending:
  "find_one (\<lambda>p. p_user_id p = uid) (pending d) = Some pend \<Longrightarrow>
   pending (snd (cmd_claim uid d)) = delete_one (\<lambda>p. p_user_id p = uid) (pending d)"
  by (simp add: cmd_claim_def Let_def split: option.splits)

lemma claim_entry_lookup:
  "map_of (claim_entry pend m) k =
     (if k = p_waifu_id pend
      then Some (case map_of m k of
                   Some e \<Rightarrow> e\<lparr>e_count := Some ((case e_count e of None \<Rightarrow> 1 | Some c \<Rightarrow> c) + 1)\<rparr>
                 | None \<Rightarrow> \<lparr>e_name = p_name pend, e_img = p_img pend,
                            e_rarity = Some (p_rarity pend), e_count = Some 1\<rparr>)
      else map_of m k)"
  by (simp add: claim_entry_def Let_def AList.update_conv' split: option.splits)

lemma claim_entry_keys:
  "map fst (claim_entry pend m) =
     (if p_waifu_id pend \<in> set (map fst m) then map fst m else map fst m @ [p_waifu_id pend])"
  by (simp add: claim_entry_def Let_def AList.update_keys split: option.splits)

lemma catch_keeps_waifus_map_aux:
  "get_waifus_map uid'
     (update_one_upsert (\<lambda>u. u_user_id u = uid) (\<lambda>u. u\<lparr>u_last_catch := t\<rparr>)
        \<lparr>u_user_id = uid, u_last_catch = t, u_waifus_map = None\<rparr> us) =
   get_waifus_map uid' us"
  by (induction us) (simp_all add: get_waifus_map_def find_one_def)

lemma catch_keeps_waifus_map:
  "get_waifus_map uid' (users (snd (cmd_catch C uid now iw ir ok d))) =
   get_waifus_map uid' (users d)"
  by (simp add: cmd_catch_def Let_def catch_keeps_waifus_map_aux split: option.splits)

lemma catch_keeps_waifus:
  "waifus (snd (cmd_catch C uid now iw ir ok d)) = waifus d"
  by (simp add: cmd_catch_def Let_def split: option.splits)

lemma pending_doc_overwrite:
  "(p::pending_doc)\<lparr>p_user_id := a, p_waifu_id := b, p_name := c, p_img := i,
      p_rarity := r, p_ts := t\<rparr> =
   \<lparr>p_user_id = a, p_waifu_id = b, p_name = c, p_img = i, p_rarity = r, p_ts = t\<rparr>"
  by (cases p) simp

lemma catch_success_pending:
  "C \<le> now - get_last_catch uid (users d) \<Longrightarrow> choose_random_waifu_async iw d = Some w \<Longrightarrow>
   pending (snd (cmd_catch C uid now iw ir ok d)) =
     update_one_upsert (\<lambda>p. p_user_id p = uid)
       (\<lambda>p. \<lparr>p_user_id = uid, p_waifu_id = w_waifu_id w, p_name = w_name w,
              p_img = w_img w, p_rarity = pick_rarity ir, p_ts = Some now\<rparr>)
       \<lparr>p_user_id = uid, p_waifu_id = w_waifu_id w, p_name = w_name w,
        p_img = w_img w, p_rarity = pick_rarity ir, p_ts = Some now\<rparr>
       (pending d)"
  by (simp add: cmd_catch_def Let_def pending_doc_overwrite split: option.splits)

lemma catch_failure_store:
  "now - get_last_catch uid (users d) < C \<or> choose_random_waifu_async iw d = None \<Longrightarrow>
   snd (cmd_catch C uid now iw ir ok d) = d"
  by (auto simp add: cmd_catch_def Let_def)

lemma catch_pending_cases:
  "pending (snd (cmd_catch C uid now iw ir ok d)) = pending d \<or>
   (\<exists>new. p_user_id new = uid \<and>
      pending (snd (cmd_catch C uid now iw ir ok d)) =
        update_one_upsert (\<lambda>p. p_user_id p = uid) (\<lambda>p. new) new (pending d))"
proof (cases "now - get_last_catch uid (users d) < C \<or> choose_random_waifu_async iw d = None")
  case True
  then show ?thesis by (simp add: catch_failure_store)
next
  case False
  then obtain w where w: "choose_random_waifu_async iw d = Some w"
    and c: "C \<le> now - get_last_catch uid (users d)" by auto
  let ?new = "\<lparr>p_user_id = uid, p_waifu_id = w_waifu_id w, p_name = w_name w,
               p_img = w_img w, p_rarity = pick_rarity ir, p_ts = Some now\<rparr>"
  have "p_user_id ?new = uid" by simp
  moreover have "pending (snd (cmd_catch C uid now iw ir ok d)) =
      update_one_upsert (\<lambda>p. p_user_id p = uid) (\<lambda>p. ?new) ?new (pending d)"
    by (rule catch_success_pending [OF c w])
  ultimately show ?thesis by blast
qed

lemma catch_keeps_invariant:
  "one_pending_per_user d \<Longrightarrow> one_pending_per_user (snd (cmd_catch C uid now iw ir ok d))"
proof -
  assume inv: "one_pending_per_user d"
  from catch_pending_cases [of C uid now iw ir ok d] show ?thesis
  proof
    assume "pending (snd (cmd_catch C uid now iw ir ok d)) = pending d"
    with inv show ?thesis by (simp add: one_pending_per_user_def)
  next
    assume "\<exists>new. p_user_id new = uid \<and>
      pending (snd (cmd_catch C uid now iw ir ok d)) =
        update_one_upsert (\<lambda>p. p_user_id p = uid) (\<lambda>p. new) new (pending d)"
    then obtain new where n: "p_user_id new = uid"
      and p: "pending (snd (cmd_catch C uid now iw ir ok d)) =
        update_one_upsert (\<lambda>p. p_user_id p = uid) (\<lambda>p. new) new (pending d)" by blast
    from inv have "distinct (map p_user_id (pending d))"
      by (simp add: one_pending_per_user_def)
    then have "distinct (map p_user_id
        (update_one_upsert (\<lambda>p. p_user_id p = uid) (\<lambda>p. new) new (pending d)))"
      using n by (rule distinct_update_one_upsert) (rule n)
    with p show ?thesis by (simp add: one_pending_per_user_def)
  qed
qed

lemma claim_pending_gone:
  assumes "one_pending_per_user d"
    and "find_one (\<lambda>p. p_user_id p = uid) (pending d) = Some pend"
  shows "find_one (\<lambda>p. p_user_id p = uid) (pending (snd (cmd_claim uid d))) = None"
proof -
  from assms(1) have "distinct (map p_user_id (pending d))"
    by (simp add: one_pending_per_user_def)
  then have "find_one (\<lambda>p. p_user_id p = uid)
      (delete_one (\<lambda>p. p_user_id p = uid) (pending d)) = None"
    by (rule find_one_delete_one)
  then show ?thesis by (simp add: claim_pending [OF assms(2)])
qed

lemma claim_keeps_invariant:
  "one_pending_per_user d \<Longrightarrow> one_pending_per_user (snd (cmd_claim uid d))"
proof (cases "find_one (\<lambda>p. p_user_id p = uid) (pending d)")
  case None
  assume "one_pending_per_user d"
  with None show ?thesis by (simp add: cmd_claim_def)
next
  case (Some pend)
  assume "one_pending_per_user d"
  then show ?thesis
    by (simp add: claim_pending [OF Some] one_pending_per_user_def distinct_delete_one)
qed

lemma catch_success_find_pending:
  assumes "C \<le> now - get_last_catch uid (users d)"
    and "choose_random_waifu_async iw d = Some w"
  shows "find_one (\<lambda>p. p_user_id p = uid) (pending (snd (cmd_catch C uid now iw ir ok d))) =
     Some \<lparr>p_user_id = uid, p_waifu_id = w_waifu_id w, p_name = w_name w,
           p_img = w_img w, p_rarity = pick_rarity ir, p_ts = Some now\<rparr>"
  by (simp add: catch_success_pending [OF assms] find_one_update_one_upsert
      split: option.splits)

lemma catch_success_filter_pending:
  assumes "one_pending_per_user d"
    and "C \<le> now - get_last_catch uid (users d)"
    and "choose_random_waifu_async iw d = Some w"
  shows "filter (\<lambda>p. p_user_id p = uid) (pending (snd (cmd_catch C uid now iw ir ok d))) =
     [\<lparr>p_user_id = uid, p_waifu_id = w_waifu_id w, p_name = w_name w,
       p_img = w_img w, p_rarity = pick_rarity ir, p_ts = Some now\<rparr>]"
proof -
  from assms(1) have "distinct (map p_user_id (pending d))"
    by (simp add: one_pending_per_user_def)
  then show ?thesis
    unfolding catch_success_pending [OF assms(2,3)]
    by (rule filter_update_one_upsert) simp_all
qed

lemma catch_success_last_catch:
  assumes "C \<le> now - get_last_catch uid (users d)"
    and "choose_random_waifu_async iw d = Some w"
  shows "get_last_catch uid (users (snd (cmd_catch C uid now iw ir ok d))) = now"
  using assms
  by (simp add: cmd_catch_def Let_def get_last_catch_def find_one_update_one_upsert
      split: option.splits)

lemma catch_catch_claim:
  assumes inv: "one_pending_per_user d"
    and d1: "d1 = snd (cmd_catch C uid now iw ir ok d)"
    and d2: "d2 = snd (cmd_catch C uid now2 iw2 ir2 ok2 d1)"
    and d3: "d3 = snd (cmd_claim uid d2)"
    and c: "C \<le> now2 - get_last_catch uid (users d1)"
    and w: "choose_random_waifu_async iw2 d1 = Some w2"
  shows "one_pending_per_user d3"
    and "find_one (\<lambda>p. p_user_id p = uid) (pending d3) = None"
    and "get_waifus_map uid (users d3) =
           claim_entry \<lparr>p_user_id = uid, p_waifu_id = w_waifu_id w2, p_name = w_name w2,
                        p_img = w_img w2, p_rarity = pick_rarity ir2, p_ts = Some now2\<rparr>
             (get_waifus_map uid (users d))"
proof -
  let ?new = "\<lparr>p_user_id = uid, p_waifu_id = w_waifu_id w2, p_name = w_name w2,
               p_img = w_img w2, p_rarity = pick_rarity ir2, p_ts = Some now2\<rparr>"
  have i1: "one_pending_per_user d1" unfolding d1 using inv by (rule catch_keeps_invariant)
  have i2: "one_pending_per_user d2" unfolding d2 using i1 by (rule catch_keeps_invariant)
  have p2: "find_one (\<lambda>p. p_user_id p = uid) (pending d2) = Some ?new"
    unfolding d2 by (rule catch_success_find_pending [OF c w])
  show "one_pending_per_user d3" unfolding d3 using i2 by (rule claim_keeps_invariant)
  show "find_one (\<lambda>p. p_user_id p = uid) (pending d3) = None"
    unfolding d3 using i2 p2 by (rule claim_pending_gone)
  have "get_waifus_map uid (users d2) = get_waifus_map uid (users d)"
    by (simp add: d1 d2 catch_keeps_waifus_map)
  then show "get_waifus_map uid (users d3) = claim_entry ?new (get_waifus_map uid (users d))"
    unfolding d3 by (simp add: claim_waifus_map [OF p2])
qed

lemma count_list_replicate:
  "count_list (replicate n x) y = (if x = y then n else 0)"
  by (induction n) auto

lemma RARITY_CHOICES_eq:
  "RARITY_CHOICES =
     replicate 2 ''Legendary'' @ replicate 8 ''Epic'' @ replicate 20 ''Rare'' @
     replicate 70 ''Common''"
  by (simp add: RARITY_CHOICES_def build_rarity_choice_def RARITY_WEIGHTS_def)

lemma draws_count:
  "card {i. i < length xs \<and> xs ! i = t} = count_list xs t"
proof -
  have "{i. i < length xs \<and> xs ! i = t} = {i. i < length xs \<and> t = xs ! i}" by auto
  then show ?thesis
    by (simp add: count_list_eq_length_filter length_filter_conv_card)
qed

lemma inventory_line_ok:
  "e_rarity info \<noteq> None \<Longrightarrow> e_count info \<noteq> None \<Longrightarrow>
   inventory_line i info =
     Inr (str_int (int i) @ ''. '' @ e_name info @ '' '' @ em_dash @ '' '' @ get_rarity info
          @ '' x'' @ str_int (get_count info))"
  by (auto simp: inventory_line_def get_rarity_def get_count_def)

lemma inventory_lines_ok:
  "\<forall>x\<in>set (take (21 - i) xs). e_rarity (snd x) \<noteq> None \<and> e_count (snd x) \<noteq> None \<Longrightarrow>
   i \<le> 20 \<Longrightarrow>
   inventory_lines i xs =
     Inr (map (\<lambda>(i, wid, info).
                 str_int (int i) @ ''. '' @ e_name info @ '' '' @ em_dash @ '' '' @
                 get_rarity info @ '' x'' @ str_int (get_count info))
            (zip [i..<21] xs))"
proof (induction xs arbitrary: i)
  case Nil
  then show ?case by simp
next
  case (Cons x xs)
  obtain wid info where x: "x = (wid, info)" by (cases x)
  from Cons.prems have pos: "0 < 21 - i" by simp
  then obtain m where m: "21 - i = Suc m" by (cases "21 - i") auto
  from Cons.prems(1) have ok: "e_rarity info \<noteq> None" "e_count info \<noteq> None"
    by (simp_all add: m x)
  have upt: "[i..<21] = i # [Suc i..<21]" using Cons.prems(2) by (simp add: upt_conv_Cons)
  show ?case
  proof (cases "i \<ge> 20")
    case True
    with Cons.prems(2) have "i = 20" by simp
    then show ?thesis by (simp add: x inventory_line_ok ok)
  next
    case False
    then have le: "Suc i \<le> 20" by simp
    have "21 - Suc i = m" using m by simp
    with Cons.prems(1) have
      "\<forall>x\<in>set (take (21 - Suc i) xs). e_rarity (snd x) \<noteq> None \<and> e_count (snd x) \<noteq> None"
      by (simp add: m)
    from Cons.IH [OF this le] False show ?thesis
      by (simp add: x inventory_line_ok ok upt)
  qed
qed

lemma sorted_inventory_key:
  "sorted_wrt (\<lambda>a b. get_count (snd b) < get_count (snd a) \<or>
                  (get_count (snd a) = get_count (snd b) \<and>
                   get_rarity (snd a) \<le> get_rarity (snd b)))
     (sort_key inventory_key xs)"
proof -
  have "sorted (map inventory_key (sort_key inventory_key xs))" by (rule sorted_sort_key)
  then have "sorted_wrt (\<lambda>a b. inventory_key a \<le> inventory_key b) (sort_key inventory_key xs)"
    by (simp add: sorted_wrt_map)
  then show ?thesis
    by (rule sorted_wrt_mono_rel [rotated])
       (auto simp: inventory_key_def less_eq_prod_def)
qed

lemma leaderboard_scores_eq:
  "leaderboard_scores docs =
     map (\<lambda>u. (u_user_id u, total_count u)) (filter (\<lambda>u. 0 < total_count u) docs)"
  by (induction docs) (simp_all add: Let_def)

lemma length_leaderboard_lines: "length (leaderboard_lines gc rank xs) = length xs"
  by (induction gc rank xs rule: leaderboard_lines.induct) (simp_all add: Let_def)

lemma leaderboard_top_length: "length (leaderboard_top us) \<le> 10"
  by (simp add: leaderboard_top_def Let_def)

lemma leaderboard_top_sorted: "sorted_wrt (\<lambda>a b. snd b \<le> snd a) (leaderboard_top us)"
proof -
  let ?s = "sort_key (\<lambda>x. - snd x) (leaderboard_scores (take 100 us))"
  have "sorted (map (\<lambda>x. - snd x) ?s)" by (rule sorted_sort_key)
  then have "sorted_wrt (\<lambda>a b. snd b \<le> snd a) ?s" by (simp add: sorted_wrt_map)
  then have "sorted_wrt (\<lambda>a b. snd b \<le> snd a) (take 10 ?s @ drop 10 ?s)" by simp
  then have "sorted_wrt (\<lambda>a b. snd b \<le> snd a) (take 10 ?s)"
    unfolding sorted_wrt_append by blast
  then show ?thesis by (simp add: leaderboard_top_def Let_def)
qed

lemma leaderboard_top_members:
  assumes "x \<in> set (leaderboard_top us)"
  shows "0 < snd x \<and> (\<exists>u\<in>set (take 100 us). u_user_id u = fst x \<and> total_count u = snd x)"
proof -
  from assms have "x \<in> set (leaderboard_scores (take 100 us))"
    by (auto simp: leaderboard_top_def Let_def dest: in_set_takeD)
  then show ?thesis by (auto simp: leaderboard_scores_eq)
qed

lemma leaderboard_top_best:
  assumes u: "u \<in> set (take 100 us)" and pos: "0 < total_count u"
  shows "(u_user_id u, total_count u) \<in> set (leaderboard_top us) \<or>
         (length (leaderboard_top us) = 10 \<and>
          (\<forall>x\<in>set (leaderboard_top us). total_count u \<le> snd x))"
proof -
  let ?s = "sort_key (\<lambda>x. - snd x) (leaderboard_scores (take 100 us))"
  let ?y = "(u_user_id u, total_count u)"
  have top: "leaderboard_top us = take 10 ?s" by (simp add: leaderboard_top_def Let_def)
  from u pos have "?y \<in> set (leaderboard_scores (take 100 us))"
    by (auto simp: leaderboard_scores_eq)
  then have "?y \<in> set ?s" by simp
  then have "?y \<in> set (take 10 ?s) \<union> set (drop 10 ?s)"
    by (simp only: set_append [symmetric] append_take_drop_id)
  then have "?y \<in> set (take 10 ?s) \<or> ?y \<in> set (drop 10 ?s)" by blast
  then show ?thesis
  proof
    assume "?y \<in> set (take 10 ?s)"
    then show ?thesis by (simp add: top)
  next
    assume d: "?y \<in> set (drop 10 ?s)"
    then have "drop 10 ?s \<noteq> []" by auto
    then have len: "length (take 10 ?s) = 10" by simp
    have "sorted (map (\<lambda>x. - snd x) ?s)" by (rule sorted_sort_key)
    then have "sorted_wrt (\<lambda>a b. snd b \<le> snd a) (take 10 ?s @ drop 10 ?s)"
      by (simp add: sorted_wrt_map)
    then have "\<forall>x\<in>set (take 10 ?s). \<forall>y\<in>set (drop 10 ?s). snd y \<le> snd x"
      unfolding sorted_wrt_append by blast
    with d have "\<forall>x\<in>set (take 10 ?s). total_count u \<le> snd x" by fastforce
    with len show ?thesis by (simp add: top)
  qed
qed

lemma leaderboard_top_empty:
  "leaderboard_top us = [] \<longleftrightarrow> (\<forall>u\<in>set (take 100 us). \<not> 0 < total_count u)"
proof -
  let ?sc = "leaderboard_scores (take 100 us)"
  have "leaderboard_top us = [] \<longleftrightarrow> length (sort_key (\<lambda>x. - snd x) ?sc) = 0"
    unfolding leaderboard_top_def Let_def by (simp only: take_eq_Nil length_0_conv) simp
  also have "\<dots> \<longleftrightarrow> ?sc = []" by simp
  also have "\<dots> \<longleftrightarrow> (\<forall>u\<in>set (take 100 us). \<not> 0 < total_count u)"
    by (simp add: leaderboard_scores_eq filter_empty_conv)
  finally show ?thesis .
qed

section \<open>Facts about the sample states\<close>

lemma sample_invariant: "one_pending_per_user db_sample"
  by (simp add: one_pending_per_user_def db_sample_def)

lemma sample_waifus: "waifus db_sample = catalog_sample"
  by (simp add: db_sample_def)

lemma sample_last_catch_7: "get_last_catch 7 (users db_sample) = 100"
  by (simp add: get_last_catch_def db_sample_def find_one_def)

lemma sample_pending_7:
  "find_one (\<lambda>p. p_user_id p = 7) (pending db_sample) =
     Some \<lparr>p_user_id = 7, p_waifu_id = ''w1'', p_name = ''Aria'', p_img = Some ''aria.png'',
           p_rarity = ''Legendary'', p_ts = Some 100\<rparr>"
  by (simp add: db_sample_def find_one_def)

lemma sample_owned_7_w1:
  "map_of (get_waifus_map 7 (users db_sample)) ''w1'' =
     Some \<lparr>e_name = ''Aria'', e_img = None, e_rarity = Some ''Common'', e_count = Some 1\<rparr>"
  by (simp add: db_sample_def get_waifus_map_def find_one_def)

lemma sample_owned_7_w2:
  "map_of (get_waifus_map 7 (users db_sample)) ''w2'' =
     Some \<lparr>e_name = ''Mika'', e_img = None, e_rarity = Some ''Rare'', e_count = Some 2\<rparr>"
  by (simp add: db_sample_def get_waifus_map_def find_one_def)

lemma sample_keys_7:
  "map fst (get_waifus_map 7 (users db_sample)) = [''w1'', ''w2'', ''w4'', ''w5'']"
  by (simp add: db_sample_def get_waifus_map_def find_one_def)

lemma sample_keyset_7:
  "fst ` set (get_waifus_map 7 (users db_sample)) = {''w1'', ''w2'', ''w4'', ''w5''}"
  by (simp add: db_sample_def get_waifus_map_def find_one_def)

lemma sample_pending_9:
  "find_one (\<lambda>p. p_user_id p = 9) (pending db_sample) =
     Some \<lparr>p_user_id = 9, p_waifu_id = ''w3'', p_name = ''Rin'', p_img = None,
           p_rarity = ''Epic'', p_ts = Some 100\<rparr>"
  by (simp add: db_sample_def find_one_def)

lemma sample_owned_9_w3:
  "map_of (get_waifus_map 9 (users db_sample)) ''w3'' =
     Some \<lparr>e_name = ''Rin'', e_img = None, e_rarity = Some ''Rare'', e_count = None\<rparr>"
  by (simp add: db_sample_def get_waifus_map_def find_one_def)

lemma sample_choose_0:
  "waifus d = catalog_sample \<Longrightarrow> choose_random_waifu_async 0 d =
     Some \<lparr>w_waifu_id = ''w1'', w_name = ''Aria'', w_img = Some ''aria.png''\<rparr>"
  by (simp add: choose_random_waifu_async_def catalog_sample_def)

lemma sample_choose_1:
  "waifus d = catalog_sample \<Longrightarrow> choose_random_waifu_async 1 d =
     Some \<lparr>w_waifu_id = ''w2'', w_name = ''Mika'', w_img = None\<rparr>"
  by (simp add: choose_random_waifu_async_def catalog_sample_def)

lemma pick_rarity_0: "pick_rarity 0 = ''Legendary''"
  by (simp add: pick_rarity_def RARITY_CHOICES_def build_rarity_choice_def RARITY_WEIGHTS_def
      numeral_2_eq_2)

lemma sample_map_7:
  "get_waifus_map 7 (users db_sample) =
     [(''w1'', \<lparr>e_name = ''Aria'', e_img = None, e_rarity = Some ''Common'', e_count = Some 1\<rparr>),
      (''w2'', \<lparr>e_name = ''Mika'', e_img = None, e_rarity = Some ''Rare'', e_count = Some 2\<rparr>),
      (''w4'', \<lparr>e_name = ''Yuna'', e_img = None, e_rarity = Some ''Legendary'', e_count = Some 2\<rparr>),
      (''w5'', \<lparr>e_name = ''Sora'', e_img = None, e_rarity = Some ''Epic'', e_count = Some 2\<rparr>)]"
  by (simp add: db_sample_def get_waifus_map_def find_one_def)


lemma sample_map_8: "get_waifus_map 8 (users db_sample) = []"
  by (simp add: db_sample_def get_waifus_map_def find_one_def)

lemma sample_sorted_7:
  "sort_key inventory_key (get_waifus_map 7 (users db_sample)) =
     [(''w5'', \<lparr>e_name = ''Sora'', e_img = None, e_rarity = Some ''Epic'', e_count = Some 2\<rparr>),
      (''w4'', \<lparr>e_name = ''Yuna'', e_img = None, e_rarity = Some ''Legendary'', e_count = Some 2\<rparr>),
      (''w2'', \<lparr>e_name = ''Mika'', e_img = None, e_rarity = Some ''Rare'', e_count = Some 2\<rparr>),
      (''w1'', \<lparr>e_name = ''Aria'', e_img = None, e_rarity = Some ''Common'', e_count = Some 1\<rparr>)]"
  by (simp add: sample_map_7 inventory_key_def get_count_def get_rarity_def less_eq_prod_def)

lemma str_int_small:
  "str_int 1 = ''1''" "str_int 2 = ''2''" "str_int 3 = ''3''" "str_int 4 = ''4''"
  "str_int 7 = ''7''" "str_int 9 = ''9''"
  by code_simp+

lemma sample_top: "leaderboard_top (users db_sample) = [(10, 9), (7, 7)]"
  by (simp add: leaderboard_top_def db_sample_def total_count_def get_count_def Let_def)

lemma crowded_scan:
  "take 100 (users db_crowded) =
     replicate 100 \<lparr>u_user_id = 8, u_last_catch = None, u_waifus_map = None\<rparr>"
  by (simp add: db_crowded_def)

lemma crowded_totals: "\<forall>u\<in>set (take 100 (users db_crowded)). \<not> 0 < total_count u"
  by (simp add: crowded_scan total_count_def)

section \<open>Frame properties of the failure paths\<close>

text \<open>
  C5. A claim by a user who has no pending document answers "nothing to claim" and
  returns the store as it received it: users, pending rolls and catalog are untouched.
\<close>

theorem claim_without_pending:
  "find_one (\<lambda>p. p_user_id p = user_id) (pending d) = None \<Longrightarrow>
   cmd_claim user_id d = (Inr NothingToClaim, d)"
  by (simp add: cmd_claim_def)

theorem claim_without_pending_witness:
  "find_one (\<lambda>p. p_user_id p = 8) (pending db_sample) = None \<and>
   cmd_claim 8 db_sample = (Inr NothingToClaim, db_sample)"
proof -
  have h: "find_one (\<lambda>p. p_user_id p = 8) (pending db_sample) = None"
    by (simp add: db_sample_def find_one_def)
  show ?thesis using h claim_without_pending [OF h] by simp
qed

text \<open>
  C2. A catch at time \<open>now\<close> with \<open>now - last_catch < COOLDOWN_SECONDS\<close>, where
  \<open>last_catch\<close> is 0 when the user document or its field is absent, answers with the
  remaining wait and returns the store as it received it: last catch time, pending roll
  and collection are unchanged.
\<close>

theorem catch_on_cooldown:
  "now - get_last_catch user_id (users d) < COOLDOWN_SECONDS \<Longrightarrow>
   cmd_catch COOLDOWN_SECONDS user_id now iw ir photo_ok d =
     (Wait (COOLDOWN_SECONDS - (now - get_last_catch user_id (users d))), d)"
  by (simp add: cmd_catch_def Let_def)

theorem catch_on_cooldown_witness:
  "105 - get_last_catch 7 (users db_sample) < 15 \<and>
   cmd_catch 15 7 105 0 0 True db_sample = (Wait 10, db_sample)"
proof -
  have g: "get_last_catch 7 (users db_sample) = 100"
    by (simp add: get_last_catch_def db_sample_def find_one_def)
  have h: "105 - get_last_catch 7 (users db_sample) < 15"
    by (simp add: g)
  show ?thesis using h catch_on_cooldown [OF h, of 0 0 True] by (simp add: g)
qed

text \<open>
  C6. The cooldown decision of a catch reads the user document's \<open>last_catch\<close> and the
  clock only. Two stores with the same user documents (and catalog) that differ in the
  pending collection in any way, a different \<open>ts\<close> or no pending document at all, give
  the same reply and the same user documents afterwards, and the reply is a wait message
  exactly when \<open>now - last_catch < COOLDOWN_SECONDS\<close>.
\<close>

theorem cooldown_ignores_pending:
  "users d = users d' \<Longrightarrow> waifus d = waifus d' \<Longrightarrow>
   fst (cmd_catch C uid now iw ir ok d) = fst (cmd_catch C uid now iw ir ok d') \<and>
   users (snd (cmd_catch C uid now iw ir ok d)) = users (snd (cmd_catch C uid now iw ir ok d')) \<and>
   ((\<exists>remain. fst (cmd_catch C uid now iw ir ok d) = Wait remain) \<longleftrightarrow>
      now - get_last_catch uid (users d) < C)"
  by (simp add: cmd_catch_def Let_def choose_random_waifu_async_def
      split: option.splits list.splits)

theorem cooldown_ignores_pending_witness:
  "users db_sample = users (db_sample\<lparr>pending := []\<rparr>) \<and>
   waifus db_sample = waifus (db_sample\<lparr>pending := []\<rparr>) \<and>
   fst (cmd_catch 15 7 105 0 0 True db_sample) = Wait 10 \<and>
   fst (cmd_catch 15 7 105 0 0 True (db_sample\<lparr>pending := []\<rparr>)) = Wait 10"
  using cooldown_ignores_pending [of db_sample "db_sample\<lparr>pending := []\<rparr>" 15 7 105 0 0 True]
  by (simp add: cmd_catch_def Let_def sample_last_catch_7)

section \<open>The claim of an owned collectible\<close>

text \<open>
  C1, as the code has it. When the claimed \<open>waifu_id\<close> is already a key of the user's
  collection, the claim replaces the entry's count by \<^verbatim>\<open>get("count", 1) + 1\<close>, one more
  than the stored count, and keeps the stored name, image and rarity: the values that the
  pending roll carries are not written to an owned entry.
\<close>

theorem claim_owned_keeps_fields:
  assumes "find_one (\<lambda>p. p_user_id p = uid) (pending d) = Some pend"
    and "map_of (get_waifus_map uid (users d)) (p_waifu_id pend) = Some e"
  shows "map_of (get_waifus_map uid (users (snd (cmd_claim uid d)))) (p_waifu_id pend) =
           Some \<lparr>e_name = e_name e, e_img = e_img e, e_rarity = e_rarity e,
                 e_count = Some ((case e_count e of None \<Rightarrow> 1 | Some c \<Rightarrow> c) + 1)\<rparr>"
  using assms by (cases e) (simp add: claim_waifus_map claim_entry_lookup)

theorem claim_owned_keeps_fields_witness:
  "find_one (\<lambda>p. p_user_id p = 7) (pending db_sample) =
     Some \<lparr>p_user_id = 7, p_waifu_id = ''w1'', p_name = ''Aria'', p_img = Some ''aria.png'',
           p_rarity = ''Legendary'', p_ts = Some 100\<rparr> \<and>
   map_of (get_waifus_map 7 (users db_sample)) ''w1'' =
     Some \<lparr>e_name = ''Aria'', e_img = None, e_rarity = Some ''Common'', e_count = Some 1\<rparr> \<and>
   map_of (get_waifus_map 7 (users (snd (cmd_claim 7 db_sample)))) ''w1'' =
     Some \<lparr>e_name = ''Aria'', e_img = None, e_rarity = Some ''Common'', e_count = Some 2\<rparr>"
  using claim_owned_keeps_fields [OF sample_pending_7, of "\<lparr>e_name = ''Aria'', e_img = None, e_rarity = Some ''Common'', e_count = Some 1\<rparr>"]
    sample_pending_7 sample_owned_7_w1
  by simp

text \<open>
  C1 as stated fails: user 7 of the sample store owns \<open>w1\<close> as a Common without image
  and claims a Legendary roll of \<open>w1\<close> that carries an image; the stored entry is not
  the one with the roll's rarity and image.
\<close>

theorem claim_overwrites_counterexample:
  "find_one (\<lambda>p. p_user_id p = 7) (pending db_sample) =
     Some \<lparr>p_user_id = 7, p_waifu_id = ''w1'', p_name = ''Aria'', p_img = Some ''aria.png'',
           p_rarity = ''Legendary'', p_ts = Some 100\<rparr> \<and>
   map_of (get_waifus_map 7 (users db_sample)) ''w1'' \<noteq> None \<and>
   map_of (get_waifus_map 7 (users (snd (cmd_claim 7 db_sample)))) ''w1'' \<noteq>
     Some \<lparr>e_name = ''Aria'', e_img = Some ''aria.png'', e_rarity = Some ''Legendary'',
           e_count = Some 2\<rparr>"
  by (simp add: sample_pending_7 sample_owned_7_w1 claim_waifus_map claim_entry_lookup)

text \<open>
  C10. When the owned entry carries no count, the claim stores the count 2: the absent
  count is read as 1 and incremented.
\<close>

theorem claim_missing_count:
  assumes "find_one (\<lambda>p. p_user_id p = uid) (pending d) = Some pend"
    and "map_of (get_waifus_map uid (users d)) (p_waifu_id pend) = Some e"
    and "e_count e = None"
  shows "map_of (get_waifus_map uid (users (snd (cmd_claim uid d)))) (p_waifu_id pend) =
           Some (e\<lparr>e_count := Some 2\<rparr>)"
  using assms by (simp add: claim_waifus_map claim_entry_lookup)

theorem claim_missing_count_witness:
  "find_one (\<lambda>p. p_user_id p = 9) (pending db_sample) =
     Some \<lparr>p_user_id = 9, p_waifu_id = ''w3'', p_name = ''Rin'', p_img = None,
           p_rarity = ''Epic'', p_ts = Some 100\<rparr> \<and>
   map_of (get_waifus_map 9 (users db_sample)) ''w3'' =
     Some \<lparr>e_name = ''Rin'', e_img = None, e_rarity = Some ''Rare'', e_count = None\<rparr> \<and>
   map_of (get_waifus_map 9 (users (snd (cmd_claim 9 db_sample)))) ''w3'' =
     Some \<lparr>e_name = ''Rin'', e_img = None, e_rarity = Some ''Rare'', e_count = Some 2\<rparr> \<and>
   fst (cmd_claim 9 db_sample) = Inr (Claimed ''Rin'' ''Rare'' 2)"
proof -
  have r: "fst (cmd_claim 9 db_sample) = Inr (Claimed ''Rin'' ''Rare'' 2)"
    by (simp add: cmd_claim_def sample_pending_9 Let_def get_waifus_map_claim_read
        claim_entry_lookup sample_owned_9_w3)
  show ?thesis
    using claim_missing_count [OF sample_pending_9, of "\<lparr>e_name = ''Rin'', e_img = None, e_rarity = Some ''Rare'', e_count = None\<rparr>"]
      sample_pending_9 sample_owned_9_w3 r
    by simp
qed

section \<open>The pending roll\<close>

text \<open>
  C4. In a store with at most one pending document per user, a claim that finds the
  user's pending document removes it: no pending document of the user is left, and a
  second claim with no catch in between answers "nothing to claim" and changes nothing.
\<close>

theorem claim_consumes_pending:
  assumes "one_pending_per_user d"
    and "find_one (\<lambda>p. p_user_id p = uid) (pending d) = Some pend"
  shows "find_one (\<lambda>p. p_user_id p = uid) (pending (snd (cmd_claim uid d))) = None \<and>
         cmd_claim uid (snd (cmd_claim uid d)) = (Inr NothingToClaim, snd (cmd_claim uid d))"
proof -
  have "find_one (\<lambda>p. p_user_id p = uid) (pending (snd (cmd_claim uid d))) = None"
    using assms by (rule claim_pending_gone)
  then show ?thesis by (simp add: cmd_claim_def)
qed

theorem claim_consumes_pending_witness:
  "one_pending_per_user db_sample \<and>
   find_one (\<lambda>p. p_user_id p = 7) (pending db_sample) =
     Some \<lparr>p_user_id = 7, p_waifu_id = ''w1'', p_name = ''Aria'', p_img = Some ''aria.png'',
           p_rarity = ''Legendary'', p_ts = Some 100\<rparr> \<and>
   fst (cmd_claim 7 db_sample) = Inr (Claimed ''Aria'' ''Common'' 2) \<and>
   find_one (\<lambda>p. p_user_id p = 7) (pending (snd (cmd_claim 7 db_sample))) = None \<and>
   fst (cmd_claim 7 (snd (cmd_claim 7 db_sample))) = Inr NothingToClaim"
proof -
  have r: "fst (cmd_claim 7 db_sample) = Inr (Claimed ''Aria'' ''Common'' 2)"
    by (simp add: cmd_claim_def sample_pending_7 Let_def get_waifus_map_claim_read
        claim_entry_lookup sample_owned_7_w1)
  show ?thesis
    using claim_consumes_pending [OF sample_invariant sample_pending_7]
      sample_invariant sample_pending_7 r
    by simp
qed

text \<open>
  C3. A catch keeps the invariant that every user has at most one pending document. A
  successful catch leaves the user exactly one pending document, the new roll, whatever
  was pending before. After catch, catch, claim, where the second catch succeeds with the
  collectible \<open>w2\<close>, the user has no pending document and the collection differs from
  the one before the first catch in the entry of \<open>w2\<close> only: its count is incremented
  if it was owned, and it is added at the end with count 1 if it was not.
\<close>

theorem catch_replaces_pending:
  assumes inv: "one_pending_per_user d"
  shows "one_pending_per_user (snd (cmd_catch C uid now iw ir ok d)) \<and>
    (C \<le> now - get_last_catch uid (users d) \<longrightarrow> choose_random_waifu_async iw d = Some w \<longrightarrow>
       filter (\<lambda>p. p_user_id p = uid) (pending (snd (cmd_catch C uid now iw ir ok d))) =
         [\<lparr>p_user_id = uid, p_waifu_id = w_waifu_id w, p_name = w_name w,
           p_img = w_img w, p_rarity = pick_rarity ir, p_ts = Some now\<rparr>]) \<and>
    (let d1 = snd (cmd_catch C uid now iw ir ok d);
         d2 = snd (cmd_catch C uid now2 iw2 ir2 ok2 d1);
         d3 = snd (cmd_claim uid d2);
         m0 = get_waifus_map uid (users d);
         m3 = get_waifus_map uid (users d3);
         wid = w_waifu_id w2
     in C \<le> now2 - get_last_catch uid (users d1) \<longrightarrow>
        choose_random_waifu_async iw2 d1 = Some w2 \<longrightarrow>
          one_pending_per_user d3 \<and>
          find_one (\<lambda>p. p_user_id p = uid) (pending d3) = None \<and>
          map_of m3 wid =
            Some (case map_of m0 wid of
                    Some e \<Rightarrow>
                      e\<lparr>e_count := Some ((case e_count e of None \<Rightarrow> 1 | Some c \<Rightarrow> c) + 1)\<rparr>
                  | None \<Rightarrow>
                      \<lparr>e_name = w_name w2, e_img = w_img w2,
                       e_rarity = Some (pick_rarity ir2), e_count = Some 1\<rparr>) \<and>
          (\<forall>k. k \<noteq> wid \<longrightarrow> map_of m3 k = map_of m0 k) \<and>
          map fst m3 = (if wid \<in> set (map fst m0) then map fst m0 else map fst m0 @ [wid]))"
proof (intro conjI)
  show "one_pending_per_user (snd (cmd_catch C uid now iw ir ok d))"
    using inv by (rule catch_keeps_invariant)
next
  show "C \<le> now - get_last_catch uid (users d) \<longrightarrow> choose_random_waifu_async iw d = Some w \<longrightarrow>
       filter (\<lambda>p. p_user_id p = uid) (pending (snd (cmd_catch C uid now iw ir ok d))) =
         [\<lparr>p_user_id = uid, p_waifu_id = w_waifu_id w, p_name = w_name w,
           p_img = w_img w, p_rarity = pick_rarity ir, p_ts = Some now\<rparr>]"
    using inv by (simp add: catch_success_filter_pending)
next
  show "let d1 = snd (cmd_catch C uid now iw ir ok d);
         d2 = snd (cmd_catch C uid now2 iw2 ir2 ok2 d1);
         d3 = snd (cmd_claim uid d2);
         m0 = get_waifus_map uid (users d);
         m3 = get_waifus_map uid (users d3);
         wid = w_waifu_id w2
     in C \<le> now2 - get_last_catch uid (users d1) \<longrightarrow>
        choose_random_waifu_async iw2 d1 = Some w2 \<longrightarrow>
          one_pending_per_user d3 \<and>
          find_one (\<lambda>p. p_user_id p = uid) (pending d3) = None \<and>
          map_of m3 wid =
            Some (case map_of m0 wid of
                    Some e \<Rightarrow>
                      e\<lparr>e_count := Some ((case e_count e of None \<Rightarrow> 1 | Some c \<Rightarrow> c) + 1)\<rparr>
                  | None \<Rightarrow>
                      \<lparr>e_name = w_name w2, e_img = w_img w2,
                       e_rarity = Some (pick_rarity ir2), e_count = Some 1\<rparr>) \<and>
          (\<forall>k. k \<noteq> wid \<longrightarrow> map_of m3 k = map_of m0 k) \<and>
          map fst m3 = (if wid \<in> set (map fst m0) then map fst m0 else map fst m0 @ [wid])"
    unfolding Let_def
  proof (intro impI)
    assume c: "C \<le> now2 - get_last_catch uid (users (snd (cmd_catch C uid now iw ir ok d)))"
      and w: "choose_random_waifu_async iw2 (snd (cmd_catch C uid now iw ir ok d)) = Some w2"
    note ccc = catch_catch_claim [OF inv refl refl refl c w, of ir2 ok2]
    show "one_pending_per_user
           (snd (cmd_claim uid (snd (cmd_catch C uid now2 iw2 ir2 ok2 (snd (cmd_catch C uid now iw ir ok d)))))) \<and>
          find_one (\<lambda>p. p_user_id p = uid)
           (pending (snd (cmd_claim uid (snd (cmd_catch C uid now2 iw2 ir2 ok2 (snd (cmd_catch C uid now iw ir ok d))))))) = None \<and>
          map_of (get_waifus_map uid (users (snd (cmd_claim uid (snd (cmd_catch C uid now2 iw2 ir2 ok2 (snd (cmd_catch C uid now iw ir ok d)))))))) (w_waifu_id w2) =
            Some (case map_of (get_waifus_map uid (users d)) (w_waifu_id w2) of
                    Some e \<Rightarrow>
                      e\<lparr>e_count := Some ((case e_count e of None \<Rightarrow> 1 | Some c \<Rightarrow> c) + 1)\<rparr>
                  | None \<Rightarrow>
                      \<lparr>e_name = w_name w2, e_img = w_img w2,
                       e_rarity = Some (pick_rarity ir2), e_count = Some 1\<rparr>) \<and>
          (\<forall>k. k \<noteq> w_waifu_id w2 \<longrightarrow> map_of (get_waifus_map uid (users (snd (cmd_claim uid (snd (cmd_catch C uid now2 iw2 ir2 ok2 (snd (cmd_catch C uid now iw ir ok d)))))))) k = map_of (get_waifus_map uid (users d)) k) \<and>
          map fst (get_waifus_map uid (users (snd (cmd_claim uid (snd (cmd_catch C uid now2 iw2 ir2 ok2 (snd (cmd_catch C uid now iw ir ok d)))))))) =
            (if w_waifu_id w2 \<in> set (map fst (get_waifus_map uid (users d))) then map fst (get_waifus_map uid (users d)) else map fst (get_waifus_map uid (users d)) @ [w_waifu_id w2])"
      by (simp add: ccc claim_entry_lookup claim_entry_keys split: option.splits)
  qed
qed

theorem catch_replaces_pending_witness:
  "one_pending_per_user db_sample \<and>
   15 \<le> 200 - get_last_catch 7 (users db_sample) \<and>
   choose_random_waifu_async 0 db_sample =
     Some \<lparr>w_waifu_id = ''w1'', w_name = ''Aria'', w_img = Some ''aria.png''\<rparr> \<and>
   filter (\<lambda>p. p_user_id p = 7) (pending (snd (cmd_catch 15 7 200 0 0 True db_sample))) =
     [\<lparr>p_user_id = 7, p_waifu_id = ''w1'', p_name = ''Aria'', p_img = Some ''aria.png'',
       p_rarity = ''Legendary'', p_ts = Some 200\<rparr>] \<and>
   (let d1 = snd (cmd_catch 15 7 200 0 0 True db_sample);
        d2 = snd (cmd_catch 15 7 220 1 99 True d1);
        d3 = snd (cmd_claim 7 d2)
    in 15 \<le> 220 - get_last_catch 7 (users d1) \<and>
       choose_random_waifu_async 1 d1 =
         Some \<lparr>w_waifu_id = ''w2'', w_name = ''Mika'', w_img = None\<rparr> \<and>
       find_one (\<lambda>p. p_user_id p = 7) (pending d3) = None \<and>
       map_of (get_waifus_map 7 (users d3)) ''w2'' =
         Some \<lparr>e_name = ''Mika'', e_img = None, e_rarity = Some ''Rare'', e_count = Some 3\<rparr> \<and>
       map_of (get_waifus_map 7 (users d3)) ''w1'' =
         Some \<lparr>e_name = ''Aria'', e_img = None, e_rarity = Some ''Common'', e_count = Some 1\<rparr> \<and>
       map fst (get_waifus_map 7 (users d3)) = [''w1'', ''w2'', ''w4'', ''w5''])"
proof -
  let ?aria = "\<lparr>w_waifu_id = ''w1'', w_name = ''Aria'', w_img = Some ''aria.png''\<rparr>"
  let ?mika = "\<lparr>w_waifu_id = ''w2'', w_name = ''Mika'', w_img = None\<rparr>"
  let ?d1 = "snd (cmd_catch 15 7 200 0 0 True db_sample)"
  have c1: "15 \<le> 200 - get_last_catch 7 (users db_sample)"
    by (simp add: sample_last_catch_7)
  have w1: "choose_random_waifu_async 0 db_sample = Some ?aria"
    by (simp add: sample_choose_0 sample_waifus)
  have "get_last_catch 7 (users ?d1) = 200"
    by (rule catch_success_last_catch [OF c1 w1])
  then have c2: "15 \<le> 220 - get_last_catch 7 (users ?d1)" by simp
  have w2: "choose_random_waifu_async 1 ?d1 = Some ?mika"
    by (rule sample_choose_1) (simp add: catch_keeps_waifus sample_waifus)
  note t = catch_replaces_pending [OF sample_invariant, where C = 15 and uid = 7
      and now = 200 and iw = 0 and ir = 0 and ok = True and w = ?aria
      and ?now2.0 = 220 and ?iw2.0 = 1 and ?ir2.0 = 99 and ?ok2.0 = True and ?w2.0 = ?mika]
  show ?thesis
    using t c1 w1 c2 w2 sample_invariant
    by (simp add: Let_def pick_rarity_0 sample_owned_7_w2 sample_owned_7_w1 sample_keys_7
        sample_keyset_7)
qed

section \<open>The rarity selector\<close>

text \<open>
  C9. The pool \<open>RARITY_CHOICES\<close> holds Legendary 2 times, Epic 8 times, Rare 20 times
  and Common 70 times, 100 labels in all. Every draw below the pool's length returns one
  of these four labels, and the number of draws that return a label \<open>t\<close> is the weight of
  \<open>t\<close> in \<open>RARITY_WEIGHTS\<close> (0 for any other label): under the uniform draw of
  \<^verbatim>\<open>random.choice\<close> the label \<open>t\<close> has probability weight over the sum of the weights,
  and a call depends on its own draw only.
\<close>

theorem rarity_pool:
  "RARITY_CHOICES =
     replicate 2 ''Legendary'' @ replicate 8 ''Epic'' @ replicate 20 ''Rare'' @
     replicate 70 ''Common'' \<and>
   length RARITY_CHOICES = 100 \<and>
   (\<forall>i < length RARITY_CHOICES.
      pick_rarity i \<in> {''Legendary'', ''Epic'', ''Rare'', ''Common''}) \<and>
   card {i. i < length RARITY_CHOICES \<and> pick_rarity i = t} =
     (case map_of RARITY_WEIGHTS t of Some w \<Rightarrow> w | None \<Rightarrow> 0) \<and>
   card {i. i < length RARITY_CHOICES \<and> pick_rarity i = t} * sum_list (map snd RARITY_WEIGHTS) =
     (case map_of RARITY_WEIGHTS t of Some w \<Rightarrow> w | None \<Rightarrow> 0) * length RARITY_CHOICES"
proof -
  have len: "length RARITY_CHOICES = 100" by (simp add: RARITY_CHOICES_eq)
  have set: "set RARITY_CHOICES = {''Legendary'', ''Epic'', ''Rare'', ''Common''}"
    by (auto simp add: RARITY_CHOICES_eq)
  have mem: "\<forall>i < length RARITY_CHOICES.
      pick_rarity i \<in> {''Legendary'', ''Epic'', ''Rare'', ''Common''}"
    unfolding pick_rarity_def using set nth_mem by blast
  have cnt: "card {i. i < length RARITY_CHOICES \<and> pick_rarity i = t} =
     (case map_of RARITY_WEIGHTS t of Some w \<Rightarrow> w | None \<Rightarrow> 0)"
    unfolding pick_rarity_def draws_count
    by (simp add: RARITY_CHOICES_eq count_list_replicate RARITY_WEIGHTS_def)
  have sum: "sum_list (map snd RARITY_WEIGHTS) = 100" by (simp add: RARITY_WEIGHTS_def)
  show ?thesis using len mem cnt sum RARITY_CHOICES_eq by simp
qed

theorem rarity_pool_witness:
  "(0::nat) < length RARITY_CHOICES \<and> pick_rarity 0 = ''Legendary'' \<and>
   pick_rarity 0 \<in> {''Legendary'', ''Epic'', ''Rare'', ''Common''} \<and>
   card {i. i < length RARITY_CHOICES \<and> pick_rarity i = ''Epic''} = 8 \<and>
   card {i. i < length RARITY_CHOICES \<and> pick_rarity i = ''Mythic''} = 0"
  using rarity_pool [of "''Epic''"] rarity_pool [of "''Mythic''"] pick_rarity_0
  by (simp add: RARITY_WEIGHTS_def)

section \<open>Inventory and leaderboard\<close>

text \<open>
  The inventory answers "collection is empty" exactly when the user's collection is
  empty (an absent user document or an absent \<^verbatim>\<open>waifus_map\<close> counts as empty). The sorted
  items are the collection's items, ordered by count descending and then by rarity label
  ascending in the lexicographic order of strings, items with equal keys keeping their
  order. When the collection is not empty and the first 20 sorted items carry a rarity and a
  count, the reply lists these at most 20 items, numbered from 1, each line being
  \<^verbatim>\<open>{i}. {name} -- {rarity} x{count}\<close> with an em dash.
\<close>

theorem inventory_rendering:
  "(cmd_inventory uid d = Inr CollectionEmpty \<longleftrightarrow> get_waifus_map uid (users d) = []) \<and>
   (let items = sort_key inventory_key (get_waifus_map uid (users d));
        shown = take 20 items
    in sorted_wrt (\<lambda>a b. get_count (snd b) < get_count (snd a) \<or>
                     (get_count (snd a) = get_count (snd b) \<and>
                      get_rarity (snd a) \<le> get_rarity (snd b))) items \<and>
       set items = set (get_waifus_map uid (users d)) \<and>
       length items = length (get_waifus_map uid (users d)) \<and>
       filter (\<lambda>x. inventory_key x = k) items =
         filter (\<lambda>x. inventory_key x = k) (get_waifus_map uid (users d)) \<and>
       (get_waifus_map uid (users d) \<noteq> [] \<longrightarrow>
        (\<forall>x\<in>set shown. e_rarity (snd x) \<noteq> None \<and> e_count (snd x) \<noteq> None) \<longrightarrow>
          cmd_inventory uid d =
            Inr (Collection
              (map (\<lambda>(i, wid, info).
                      str_int (int i) @ ''. '' @ e_name info @ '' '' @ em_dash @ '' '' @
                      get_rarity info @ '' x'' @ str_int (get_count info))
                 (zip [1..<21] shown)))))"
proof -
  let ?m = "get_waifus_map uid (users d)"
  let ?items = "sort_key inventory_key ?m"
  let ?fmt = "\<lambda>(i::nat, wid::string, info).
                      str_int (int i) @ ''. '' @ e_name info @ '' '' @ em_dash @ '' '' @
                      get_rarity info @ '' x'' @ str_int (get_count info)"
  have empty: "cmd_inventory uid d = Inr CollectionEmpty \<longleftrightarrow> ?m = []"
    by (simp add: cmd_inventory_def Let_def split: sum.splits)
  have zip: "zip [1..<21] (take 20 ?items) = zip [1..<21] ?items"
    by (rule nth_equalityI) simp_all
  have render: "cmd_inventory uid d = Inr (Collection (map ?fmt (zip [1..<21] (take 20 ?items))))"
    if ne: "?m \<noteq> []"
      and ok: "\<forall>x\<in>set (take 20 ?items). e_rarity (snd x) \<noteq> None \<and> e_count (snd x) \<noteq> None"
  proof -
    have "inventory_lines 1 ?items = Inr (map ?fmt (zip [1..<21] ?items))"
      by (rule inventory_lines_ok) (use ok in simp_all)
    then have "inventory_lines 1 ?items = Inr (map ?fmt (zip [1..<21] (take 20 ?items)))"
      by (simp only: zip)
    with ne show ?thesis by (simp add: cmd_inventory_def Let_def)
  qed
  show ?thesis
    unfolding Let_def
    using empty render sorted_inventory_key [of ?m] sort_key_stable [of inventory_key k ?m]
    by simp
qed

theorem inventory_rendering_witness:
  "get_waifus_map 7 (users db_sample) \<noteq> [] \<and>
   cmd_inventory 7 db_sample =
     Inr (Collection
       [''1. Sora '' @ em_dash @ '' Epic x2'',
        ''2. Yuna '' @ em_dash @ '' Legendary x2'',
        ''3. Mika '' @ em_dash @ '' Rare x2'',
        ''4. Aria '' @ em_dash @ '' Common x1'']) \<and>
   get_waifus_map 8 (users db_sample) = [] \<and>
   cmd_inventory 8 db_sample = Inr CollectionEmpty"
  using inventory_rendering [of 7 db_sample "(- 2, ''Epic'')"]
    inventory_rendering [of 8 db_sample "(- 2, ''Epic'')"]
  by (simp add: Let_def sample_sorted_7 [unfolded sample_map_7] sample_map_7 sample_map_8
      str_int_small get_count_def get_rarity_def upt_conv_Cons inventory_key_def)


text \<open>
  C8. The leaderboard depends on the first 100 user documents only. It answers "no data
  yet" exactly when none of these has a positive total. Otherwise it lists at most 10
  entries in non-increasing order of total, one line per entry; each entry is a scanned user
  with its positive total, and a scanned user with a positive total is left out only when
  10 entries are listed, none with a smaller total.
\<close>

theorem leaderboard_properties:
  "(take 100 (users d) = take 100 (users d') \<longrightarrow>
      cmd_leaderboard get_chat d = cmd_leaderboard get_chat d') \<and>
   (cmd_leaderboard get_chat d = NoData \<longleftrightarrow>
      (\<forall>u\<in>set (take 100 (users d)). \<not> 0 < total_count u)) \<and>
   (let top = leaderboard_top (users d) in
      length top \<le> 10 \<and>
      sorted_wrt (\<lambda>a b. snd b \<le> snd a) top \<and>
      (\<forall>x\<in>set top. 0 < snd x \<and>
         (\<exists>u\<in>set (take 100 (users d)). u_user_id u = fst x \<and> total_count u = snd x)) \<and>
      (\<forall>u\<in>set (take 100 (users d)). 0 < total_count u \<longrightarrow>
         (u_user_id u, total_count u) \<in> set top \<or>
         (length top = 10 \<and> (\<forall>x\<in>set top. total_count u \<le> snd x))) \<and>
      (top \<noteq> [] \<longrightarrow>
         cmd_leaderboard get_chat d = Leaderboard (leaderboard_lines get_chat 1 top) \<and>
         length (leaderboard_lines get_chat 1 top) = length top))"
proof -
  have scan: "take 100 (users d) = take 100 (users d') \<longrightarrow>
      cmd_leaderboard get_chat d = cmd_leaderboard get_chat d'"
    by (simp add: cmd_leaderboard_def leaderboard_top_def Let_def)
  have nodata: "cmd_leaderboard get_chat d = NoData \<longleftrightarrow>
      (\<forall>u\<in>set (take 100 (users d)). \<not> 0 < total_count u)"
    using leaderboard_top_empty [of "users d"] by (simp add: cmd_leaderboard_def Let_def)
  have reply: "leaderboard_top (users d) \<noteq> [] \<longrightarrow>
      cmd_leaderboard get_chat d =
        Leaderboard (leaderboard_lines get_chat 1 (leaderboard_top (users d)))"
    by (simp add: cmd_leaderboard_def Let_def)
  show ?thesis
    unfolding Let_def
    using scan nodata reply leaderboard_top_length [of "users d"]
      leaderboard_top_sorted [of "users d"] leaderboard_top_members [of _ "users d"]
      leaderboard_top_best [of _ "users d"] length_leaderboard_lines
    by (intro conjI ballI impI) blast+
qed

theorem leaderboard_properties_witness:
  "leaderboard_top (users db_sample) = [(10, 9), (7, 7)] \<and>
   cmd_leaderboard (\<lambda>uid. if uid = 10 then Some ''Ten'' else None) db_sample =
     Leaderboard [''1. Ten '' @ em_dash @ '' 9'', ''2. 7 '' @ em_dash @ '' 7''] \<and>
   length (users db_crowded) = 101 \<and>
   total_count (users db_crowded ! 100) = 9 \<and>
   take 100 (users db_crowded) =
     replicate 100 \<lparr>u_user_id = 8, u_last_catch = None, u_waifus_map = None\<rparr> \<and>
   total_count \<lparr>u_user_id = 8, u_last_catch = None, u_waifus_map = None\<rparr> = 0 \<and>
   cmd_leaderboard (\<lambda>uid. None) db_crowded = NoData \<and>
   take 100 (users db_crowded) = take 100 (users (db_crowded\<lparr>users := take 100 (users db_crowded)\<rparr>)) \<and>
   cmd_leaderboard (\<lambda>uid. None) (db_crowded\<lparr>users := take 100 (users db_crowded)\<rparr>) = NoData"
proof -
  have l: "length (users db_crowded) = 101" by (simp add: db_crowded_def)
  have n: "total_count (users db_crowded ! 100) = 9"
    by (simp add: db_crowded_def nth_append total_count_def get_count_def)
  have t: "take 100 (users db_crowded) =
     take 100 (users (db_crowded\<lparr>users := take 100 (users db_crowded)\<rparr>))"
    by simp
  show ?thesis
    using leaderboard_properties [of db_sample db_sample "\<lambda>uid. if uid = 10 then Some ''Ten'' else None"]
      leaderboard_properties [of db_crowded "db_crowded\<lparr>users := take 100 (users db_crowded)\<rparr>" "\<lambda>uid. None"]
      crowded_totals crowded_scan l n t
    by (auto simp add: Let_def sample_top str_int_small total_count_def)
qed

end
